theory Spec2Isabelle
  imports Main
begin

section \<open>Python values\<close>

type_synonym key = string

text \<open>
  A Python \<^verbatim>\<open>dict\<close> with string keys: its entries in insertion order. The keys of a
  dict are pairwise different; theorems that depend on it say so with
  \<open>distinct (map fst d)\<close>. The order is kept because \<^verbatim>\<open>d.items()\<close> and a
  comprehension over it observe it.
\<close>

type_synonym 'v dict = "(key \<times> 'v) list"

text \<open>
  What a call can raise: the \<^verbatim>\<open>KeyError\<close> of a failed lookup \<^verbatim>\<open>d[k]\<close>, or whatever
  a function of the tensor framework, the model, a loss or a metric raises (\<open>Raised\<close>).
\<close>

datatype 'e error = KeyError key | Raised 'e

text \<open>\<^verbatim>\<open>d[k]\<close>\<close>

definition getitem :: "'v dict \<Rightarrow> key \<Rightarrow> 'e error + 'v" where
  "getitem d k = (case map_of d k of None \<Rightarrow> Inl (KeyError k) | Some v \<Rightarrow> Inr v)"

text \<open>
  \<^verbatim>\<open>d[k] = v\<close>, as a dict comprehension stores each entry: a key already present keeps
  its place and gets the new value, a new key goes last.
\<close>

fun setitem :: "'v dict \<Rightarrow> key \<Rightarrow> 'v \<Rightarrow> 'v dict" where
  "setitem [] k v = [(k, v)]"
| "setitem ((k', v') # d) k v =
     (if k' = k then (k, v) # d else (k', v') # setitem d k v)"

section \<open>The task object\<close>

text \<open>
  The attributes of the task that the three methods read. \<open>'t\<close> are the tensors (and
  any other value a batch holds), \<open>'d\<close> the devices, \<open>'m\<close> the state the task has as a
  \<^verbatim>\<open>torch.nn.Module\<close> (parameters, buffers, training flag), \<open>'e\<close> what the framework
  raises, \<open>'r\<close> the values of metrics, \<open>'h\<close> the hyperparameters.

  \<open>forward\<close> is the call \<^verbatim>\<open>self(x)\<close>: the base task, which is not part of this file,
  runs the model there. It reads the module state and the gradient mode, it gets the dict
  \<^verbatim>\<open>x\<close> and may store into it, and it may change the module state.
\<close>

record ('t, 'd, 'm, 'e, 'r, 'h) task =
  hparams :: 'h
  inputs :: "key list"
  outputs :: "key list"
  loss_fn :: "'t \<Rightarrow> 't \<Rightarrow> 'e error + 't"
  metrics :: "('t \<Rightarrow> 't \<Rightarrow> 'e error + 'r) dict"
  device :: 'd
  module :: 'm
  forward :: "'m \<Rightarrow> bool \<Rightarrow> 't dict \<Rightarrow> ('e error + 't) \<times> 't dict \<times> 'm"

text \<open>
  The functions of the tensor framework that \<^verbatim>\<open>predict\<close> calls, taken as parameters:
  \<^verbatim>\<open>Module.eval()\<close> on the module state, \<^verbatim>\<open>v.to(device)\<close> and \<^verbatim>\<open>torch.sigmoid\<close>.
\<close>

record ('t, 'd, 'm, 'e) torch =
  Module_eval :: "'m \<Rightarrow> 'm"
  Tensor_to :: "'t \<Rightarrow> 'd \<Rightarrow> 'e error + 't"
  sigmoid :: "'t \<Rightarrow> 'e error + 't"

text \<open>
  What lies outside the task: the gradient mode of the framework, which
  \<^verbatim>\<open>torch.no_grad()\<close> switches off and restores, and the dict objects, each under its
  reference. References below \<open>next_ref\<close> are in use; a new dict gets \<open>next_ref\<close>.
\<close>

record 't world =
  grad_enabled :: bool
  objects :: "nat \<Rightarrow> 't dict"
  next_ref :: nat

section \<open>The constructor\<close>

text \<open>A hyperparameter value: a string such as \<^verbatim>\<open>'Adam'\<close>, or anything else.\<close>

datatype 'x hvalue = HStr string | HOther 'x

text \<open>
  \<^verbatim>\<open>__init__(self, model, hparams=None, inputs=['image'], outputs=['mask'],
  loss_fn=None, metrics=None)\<close>. For \<open>hparams\<close>, \<open>loss_fn\<close> and \<open>metrics\<close>, \<open>None\<close> is
  Python's \<^verbatim>\<open>None\<close>, which is also what an omitted argument is. For \<open>inputs\<close> and
  \<open>outputs\<close>, \<open>None\<close> stands for an omitted argument, which gets the default list.
  \<open>BCEWithLogitsLoss\<close> is the loss that \<^verbatim>\<open>torch.nn.BCEWithLogitsLoss()\<close> builds, \<open>iou\<close> the
  metric imported from the metrics package, and \<open>BaseTask_init\<close> the constructor of the
  base class; none of them is part of this file, so they are parameters.
\<close>

definition ImageSegmentation_init ::
  "('mo \<Rightarrow> 'x hvalue dict \<Rightarrow> key list \<Rightarrow> key list \<Rightarrow> 'lf \<Rightarrow> 'mf dict \<Rightarrow> 'task) \<Rightarrow> 'lf \<Rightarrow> 'mf \<Rightarrow>
   'mo \<Rightarrow> 'x hvalue dict option \<Rightarrow> key list option \<Rightarrow> key list option \<Rightarrow>
   'lf option \<Rightarrow> 'mf dict option \<Rightarrow> 'task" where
  "ImageSegmentation_init BaseTask_init BCEWithLogitsLoss iou
     model hparams_arg inputs_arg outputs_arg loss_fn_arg metrics_arg =
   (let inputs' = (case inputs_arg of None \<Rightarrow> [''image''] | Some i \<Rightarrow> i);
        outputs' = (case outputs_arg of None \<Rightarrow> [''mask''] | Some out \<Rightarrow> out);
        loss_fn' = (case loss_fn_arg of None \<Rightarrow> BCEWithLogitsLoss | Some l \<Rightarrow> l);
        hparams' = (case hparams_arg of None \<Rightarrow> [(''optimizer'', HStr ''Adam'')] | Some h \<Rightarrow> h);
        metrics' = (case metrics_arg of None \<Rightarrow> [(''iou'', iou)] | Some m \<Rightarrow> m)
    in BaseTask_init model hparams' inputs' outputs' loss_fn' metrics')"

section \<open>Loss and metrics\<close>

text \<open>\<^verbatim>\<open>return self.loss_fn(y_hat, y['mask'])\<close>\<close>

definition compute_loss ::
  "('t, 'd, 'm, 'e, 'r, 'h) task \<Rightarrow> 't \<Rightarrow> 't dict \<Rightarrow> 'e error + 't" where
  "compute_loss self y_hat y =
     (case getitem y ''mask'' of
        Inl e \<Rightarrow> Inl e
      | Inr msk \<Rightarrow> loss_fn self y_hat msk)"

text \<open>
  The comprehension \<^verbatim>\<open>{metric_name: metric(y_hat, y['mask']) for metric_name, metric in
  self.metrics.items()}\<close>, over the entries still to visit, with the dict built so far.
  The lookup \<^verbatim>\<open>y['mask']\<close> is part of the body, so it runs once for each entry.
\<close>

fun metrics_comp ::
  "('t \<Rightarrow> 't \<Rightarrow> 'e error + 'r) dict \<Rightarrow> 't \<Rightarrow> 't dict \<Rightarrow> 'r dict \<Rightarrow> 'e error + 'r dict" where
  "metrics_comp [] y_hat y acc = Inr acc"
| "metrics_comp ((metric_name, metric) # items) y_hat y acc =
     (case getitem y ''mask'' of
        Inl e \<Rightarrow> Inl e
      | Inr msk \<Rightarrow>
          (case metric y_hat msk of
             Inl e \<Rightarrow> Inl e
           | Inr r \<Rightarrow> metrics_comp items y_hat y (setitem acc metric_name r)))"

definition compute_metrics ::
  "('t, 'd, 'm, 'e, 'r, 'h) task \<Rightarrow> 't \<Rightarrow> 't dict \<Rightarrow> 'e error + 'r dict" where
  "compute_metrics self y_hat y = metrics_comp (metrics self) y_hat y []"

section \<open>Inference\<close>

text \<open>
  The comprehension \<^verbatim>\<open>{k: v.to(self.device) for k, v in batch.items() if k in
  self.inputs}\<close>: the filter comes first, so \<^verbatim>\<open>v.to\<close> runs only on the values whose key
  is an input.
\<close>

fun inputs_comp ::
  "('t \<Rightarrow> 'd \<Rightarrow> 'e error + 't) \<Rightarrow> 'd \<Rightarrow> key list \<Rightarrow> 't dict \<Rightarrow> 't dict \<Rightarrow> 'e error + 't dict" where
  "inputs_comp to dev ins [] acc = Inr acc"
| "inputs_comp to dev ins ((k, v) # items) acc =
     (if k \<in> set ins
      then (case to v dev of
              Inl e \<Rightarrow> Inl e
            | Inr v' \<Rightarrow> inputs_comp to dev ins items (setitem acc k v'))
      else inputs_comp to dev ins items acc)"

text \<open>
  The body of the \<^verbatim>\<open>with\<close> block, run with the gradient mode off. \<open>batch\<close> is the
  reference of the batch dict. The comprehension builds a new dict object \<open>x\<close>, the model
  is called on it, and the sigmoid of its output is returned.
\<close>

definition predict_body ::
  "('t, 'd, 'm, 'e) torch \<Rightarrow> ('t, 'd, 'm, 'e, 'r, 'h) task \<Rightarrow> 't world \<Rightarrow> nat \<Rightarrow>
   ('e error + 't) \<times> ('t, 'd, 'm, 'e, 'r, 'h) task \<times> 't world" where
  "predict_body fw self w batch =
     (case inputs_comp (Tensor_to fw) (device self) (inputs self) (objects w batch) [] of
        Inl e \<Rightarrow> (Inl e, self, w)
      | Inr entries \<Rightarrow>
          (let x = next_ref w;
               w1 = w\<lparr>objects := (objects w)(x := entries), next_ref := Suc x\<rparr>;
               (out, x_after, m) = forward self (module self) (grad_enabled w1) (objects w1 x);
               w2 = w1\<lparr>objects := (objects w1)(x := x_after)\<rparr>;
               self1 = self\<lparr>module := m\<rparr>
           in (case out of
                 Inl e \<Rightarrow> (Inl e, self1, w2)
               | Inr y_hat \<Rightarrow> (sigmoid fw y_hat, self1, w2))))"

text \<open>
  \<^verbatim>\<open>self.eval()\<close>, then the body under \<^verbatim>\<open>with torch.no_grad():\<close>, which restores the
  gradient mode when the block is left, by a return or by an exception.
\<close>

definition predict ::
  "('t, 'd, 'm, 'e) torch \<Rightarrow> ('t, 'd, 'm, 'e, 'r, 'h) task \<Rightarrow> 't world \<Rightarrow> nat \<Rightarrow>
   ('e error + 't) \<times> ('t, 'd, 'm, 'e, 'r, 'h) task \<times> 't world" where
  "predict fw self w batch =
     (let self1 = self\<lparr>module := Module_eval fw (module self)\<rparr>;
          prev = grad_enabled w;
          (res, self2, w1) = predict_body fw self1 (w\<lparr>grad_enabled := False\<rparr>) batch
      in (res, self2, w1\<lparr>grad_enabled := prev\<rparr>))"

section \<open>Inference as the specification words it\<close>

text \<open>
  The specification describes inference as four steps in order: filter the inputs,
  move them to the device, run the model, apply the sigmoid. The next three definitions
  follow those words, to be compared with \<open>predict\<close>.
\<close>

text \<open>The sub-mapping of the batch restricted to the keys in \<^verbatim>\<open>self.inputs\<close>.\<close>

definition restrict_inputs :: "key list \<Rightarrow> 't dict \<Rightarrow> 't dict" where
  "restrict_inputs ins batch = filter (\<lambda>(k, v). k \<in> set ins) batch"

text \<open>Each value moved to the device; the first value that cannot be moved fails the step.\<close>

fun move_all :: "('t \<Rightarrow> 'd \<Rightarrow> 'e error + 't) \<Rightarrow> 'd \<Rightarrow> 't dict \<Rightarrow> 'e error + 't dict" where
  "move_all to dev [] = Inr []"
| "move_all to dev ((k, v) # d) =
     (case to v dev of
        Inl e \<Rightarrow> Inl e
      | Inr v' \<Rightarrow>
          (case move_all to dev d of
             Inl e \<Rightarrow> Inl e
           | Inr d' \<Rightarrow> Inr ((k, v') # d')))"

text \<open>
  The model run on the moved inputs, in evaluation mode and with the gradient mode off,
  and the sigmoid of its output.
\<close>

definition inference_spec ::
  "('t, 'd, 'm, 'e) torch \<Rightarrow> ('t, 'd, 'm, 'e, 'r, 'h) task \<Rightarrow> 't dict \<Rightarrow> 'e error + 't" where
  "inference_spec fw self batch =
     (case move_all (Tensor_to fw) (device self) (restrict_inputs (inputs self) batch) of
        Inl e \<Rightarrow> Inl e
      | Inr x \<Rightarrow>
          (case fst (forward self (Module_eval fw (module self)) False x) of
             Inl e \<Rightarrow> Inl e
           | Inr y_hat \<Rightarrow> sigmoid fw y_hat))"

text \<open>
  The default-argument assembly as the specification words it: an argument that is
  \<^verbatim>\<open>None\<close> becomes the default, any other is passed through unchanged.
\<close>

definition or_default :: "'a option \<Rightarrow> 'a \<Rightarrow> 'a" where
  "or_default arg dflt = (if arg = None then dflt else the arg)"

section \<open>A concrete task\<close>

text \<open>
  A small instance to evaluate the definitions on. A tensor is a pair of the device it
  is on and a number. The module state is the training flag alone, and \<open>Module.eval()\<close>
  clears it, as the framework documents. The model returns the first entry of the dict it
  is given, one higher in training mode than in evaluation mode.
\<close>

type_synonym tensor = "string \<times> int"

definition example_torch :: "(tensor, string, bool, string) torch" where
  "example_torch =
     \<lparr>Module_eval = (\<lambda>training. False),
      Tensor_to = (\<lambda>(on, n) dev. Inr (dev, n)),
      sigmoid = (\<lambda>(on, n). Inr (on, n div 2))\<rparr>"

definition example_forward ::
  "bool \<Rightarrow> bool \<Rightarrow> tensor dict \<Rightarrow> (string error + tensor) \<times> tensor dict \<times> bool" where
  "example_forward training grad x =
     (case x of
        [] \<Rightarrow> (Inl (Raised ''no input''), x, training)
      | (k, (on, n)) # rest \<Rightarrow> (Inr (on, if training then n + 1 else n), x, training))"

definition example_task :: "(tensor, string, bool, string, int, unit) task" where
  "example_task =
     \<lparr>hparams = (),
      inputs = [''image'', ''dem''],
      outputs = [''mask''],
      loss_fn = (\<lambda>(on, a) (on', b). Inr (on, a - b)),
      metrics =
        [(''iou'', \<lambda>(on, a) (on', b). Inr (a * b)),
         (''ratio'', \<lambda>(on, a) (on', b). if b = 0 then Inl (Raised ''empty mask'') else Inr (a div b))],
      device = ''cuda'',
      module = True,
      forward = example_forward\<rparr>"

text \<open>
  A world with three batch dicts, under the references 0, 1 and 2. All three hold the
  same two inputs: the first with a target between them, the second in the other order,
  the third in the order of the first and with another extra entry.
\<close>

definition example_world :: "tensor world" where
  "example_world =
     \<lparr>grad_enabled = True,
      objects =
        (\<lambda>r. if r = 0 then [(''image'', (''cpu'', 8)), (''mask'', (''cpu'', 1)), (''dem'', (''cpu'', 20))]
             else if r = 1 then [(''dem'', (''cpu'', 20)), (''image'', (''cpu'', 8))]
             else if r = 2 then [(''image'', (''cpu'', 8)), (''dem'', (''cpu'', 20)), (''date'', (''cpu'', 2021))]
             else []),
      next_ref = 3\<rparr>"


section \<open>Dict lemmas\<close>

lemma setitem_new: "k \<notin> fst ` set d \<Longrightarrow> setitem d k v = d @ [(k, v)]"
  by (induction d k v rule: setitem.induct) auto

lemma setitem_keys: "fst ` set (setitem d k v) = insert k (fst ` set d)"
  by (induction d k v rule: setitem.induct) auto

section \<open>The loss\<close>

text \<open>
  C1. When the target mapping \<open>y\<close> has the key \<^verbatim>\<open>'mask'\<close>, \<open>compute_loss\<close> returns exactly
  what the task's loss function returns on the prediction and \<^verbatim>\<open>y['mask']\<close>, a failure of
  the loss function included: it adds nothing of its own.
\<close>

theorem compute_loss_forwards:
  assumes "map_of y ''mask'' = Some msk"
  shows "compute_loss self y_hat y = loss_fn self y_hat msk"
  using assms by (simp add: compute_loss_def getitem_def)

theorem compute_loss_forwards_witness:
  "map_of [(''image'', (''cuda'', 9)), (''mask'', (''cuda'', 3::int))] ''mask'' = Some (''cuda'', 3)
   \<and> compute_loss example_task (''cuda'', 5) [(''image'', (''cuda'', 9)), (''mask'', (''cuda'', 3))]
       = loss_fn example_task (''cuda'', 5) (''cuda'', 3)
   \<and> loss_fn example_task (''cuda'', 5) (''cuda'', 3) = Inr (''cuda'', 2)"
  using compute_loss_forwards [of "[(''image'', (''cuda'', 9)), (''mask'', (''cuda'', 3))]"
      "(''cuda'', 3)" example_task "(''cuda'', 5)"]
  by (simp add: example_task_def)

section \<open>The metrics\<close>

text \<open>
  The comprehension on its own: when it returns, the dict it returns is the dict built
  so far followed by one entry for each metric, in the order of the metrics, each holding
  what its metric returned.
\<close>

lemma metrics_comp_returns:
  assumes "map_of y ''mask'' = Some msk"
    and "distinct (map fst items)"
    and "fst ` set acc \<inter> fst ` set items = {}"
    and "metrics_comp items y_hat y acc = Inr d"
  shows "\<exists>rs. d = acc @ rs \<and> map fst rs = map fst items \<and>
           list_all2 (\<lambda>(n, f) (n', r). f y_hat msk = Inr r) items rs"
  using assms
proof (induction items arbitrary: acc)
  case Nil
  then show ?case by simp
next
  case (Cons item items)
  obtain n f where item: "item = (n, f)" by (cases item)
  from Cons.prems(4) item Cons.prems(1)
  obtain r where r: "f y_hat msk = Inr r"
    and rest: "metrics_comp items y_hat y (setitem acc n r) = Inr d"
    by (auto simp: getitem_def split: sum.splits)
  from Cons.prems(3) item have fresh: "n \<notin> fst ` set acc" by auto
  then have acc': "setitem acc n r = acc @ [(n, r)]" by (rule setitem_new)
  from Cons.prems(2,3) item have disj: "fst ` set (acc @ [(n, r)]) \<inter> fst ` set items = {}"
    by auto
  from Cons.prems(2) have "distinct (map fst items)" by simp
  from Cons.IH [OF Cons.prems(1) this disj] rest acc'
  obtain rs where rs: "d = (acc @ [(n, r)]) @ rs" "map fst rs = map fst items"
    "list_all2 (\<lambda>(n, f) (n', r). f y_hat msk = Inr r) items rs"
    by auto
  show ?case
  proof (intro exI conjI)
    show "d = acc @ ((n, r) # rs)" using rs(1) by simp
    show "map fst ((n, r) # rs) = map fst (item # items)" using rs(2) item by simp
    show "list_all2 (\<lambda>(n, f) (n', r). f y_hat msk = Inr r) (item # items) ((n, r) # rs)"
      using rs(3) item r by simp
  qed
qed

text \<open>When every metric returns, so does the comprehension.\<close>

lemma metrics_comp_total:
  assumes "map_of y ''mask'' = Some msk"
    and "\<forall>(n, f) \<in> set items. \<exists>r. f y_hat msk = Inr r"
  shows "\<exists>d. metrics_comp items y_hat y acc = Inr d"
  using assms
proof (induction items arbitrary: acc)
  case Nil
  then show ?case by simp
next
  case (Cons item items)
  obtain n f where item: "item = (n, f)" by (cases item)
  from Cons.prems(2) item obtain r where r: "f y_hat msk = Inr r" by auto
  from Cons.prems(2) have "\<forall>(n, f) \<in> set items. \<exists>r. f y_hat msk = Inr r" by simp
  from Cons.IH [OF Cons.prems(1) this]
  obtain d where "metrics_comp items y_hat y (setitem acc n r) = Inr d" by blast
  then show ?case using item r Cons.prems(1) by (simp add: getitem_def)
qed

text \<open>Looking a metric's name up in such a list of results finds the value of that metric.\<close>

lemma named_values:
  assumes "distinct (map fst items)" and "map fst rs = map fst items"
    and "list_all2 (\<lambda>(n, f) (n', r). f y_hat msk = Inr r) items rs"
    and "(n, f) \<in> set items"
  shows "\<exists>r. map_of rs n = Some r \<and> f y_hat msk = Inr r"
  using assms
proof (induction items arbitrary: rs)
  case Nil
  then show ?case by simp
next
  case (Cons item items)
  from Cons.prems(3) obtain p rs' where rs: "rs = p # rs'"
    by (cases rs) auto
  obtain n0 f0 where item: "item = (n0, f0)" by (cases item)
  obtain n1 r1 where p: "p = (n1, r1)" by (cases p)
  from Cons.prems(2) rs item p have n1: "n1 = n0" by simp
  show ?case
  proof (cases "(n, f) = item")
    case True
    with Cons.prems(3) rs item p n1 show ?thesis by auto
  next
    case False
    with Cons.prems(4) have mem: "(n, f) \<in> set items" by simp
    with Cons.prems(1) item have "n \<noteq> n0" by force
    moreover from Cons.IH [of rs'] Cons.prems(1,2,3) rs mem
    have "\<exists>r. map_of rs' n = Some r \<and> f y_hat msk = Inr r" by simp
    ultimately show ?thesis using rs p n1 by simp
  qed
qed

text \<open>
  C2. Let the target mapping \<open>y\<close> have the key \<^verbatim>\<open>'mask'\<close> (and let \<^verbatim>\<open>self.metrics\<close> be a dict:
  its names differ). Whenever \<open>compute_metrics\<close> returns a dict, that dict has the names
  of \<^verbatim>\<open>self.metrics\<close> as its keys, in the same order, and under each name the value
  that the metric of that name returns on the prediction and \<^verbatim>\<open>y['mask']\<close>. It does
  return a dict when every metric returns a value.
\<close>

theorem compute_metrics_result:
  assumes "map_of y ''mask'' = Some msk"
    and "distinct (map fst (metrics self))"
  shows "(\<forall>d. compute_metrics self y_hat y = Inr d \<longrightarrow>
            map fst d = map fst (metrics self) \<and>
            (\<forall>(n, f) \<in> set (metrics self). \<exists>r. map_of d n = Some r \<and> f y_hat msk = Inr r))
       \<and> ((\<forall>(n, f) \<in> set (metrics self). \<exists>r. f y_hat msk = Inr r) \<longrightarrow>
            (\<exists>d. compute_metrics self y_hat y = Inr d))"
proof (intro conjI allI impI)
  fix d
  assume ret: "compute_metrics self y_hat y = Inr d"
  then have "metrics_comp (metrics self) y_hat y [] = Inr d"
    by (simp add: compute_metrics_def)
  from metrics_comp_returns [OF assms(1,2) _ this]
  obtain rs where rs: "d = rs" "map fst rs = map fst (metrics self)"
    "list_all2 (\<lambda>(n, f) (n', r). f y_hat msk = Inr r) (metrics self) rs"
    by auto
  show "map fst d = map fst (metrics self)" using rs by simp
  show "\<forall>(n, f) \<in> set (metrics self). \<exists>r. map_of d n = Some r \<and> f y_hat msk = Inr r"
    using named_values [OF assms(2) rs(2,3)] rs(1) by auto
next
  assume "\<forall>(n, f) \<in> set (metrics self). \<exists>r. f y_hat msk = Inr r"
  from metrics_comp_total [OF assms(1) this]
  show "\<exists>d. compute_metrics self y_hat y = Inr d"
    by (simp add: compute_metrics_def)
qed


theorem compute_metrics_result_witness:
  "map_of [(''mask'', (''cuda'', 3::int))] ''mask'' = Some (''cuda'', 3)
   \<and> distinct (map fst (metrics example_task))
   \<and> compute_metrics example_task (''cuda'', 6) [(''mask'', (''cuda'', 3))]
       = Inr [(''iou'', 18), (''ratio'', 2)]
   \<and> map fst [(''iou'', 18::int), (''ratio'', 2)] = map fst (metrics example_task)"
  using compute_metrics_result [of "[(''mask'', (''cuda'', 3))]" "(''cuda'', 3)" example_task
      "(''cuda'', 6)"]
  by (simp add: example_task_def compute_metrics_def getitem_def)

section \<open>What inference returns\<close>

text \<open>
  The comprehension of \<open>predict\<close> visits the entries one by one, filtering and moving each
  in turn; on a dict it computes what filtering all entries first and moving the
  remaining ones afterwards computes.
\<close>

lemma inputs_comp_move_all:
  assumes "distinct (map fst items)" and "fst ` set acc \<inter> fst ` set items = {}"
  shows "inputs_comp to dev ins items acc =
           (case move_all to dev (restrict_inputs ins items) of
              Inl e \<Rightarrow> Inl e
            | Inr xs \<Rightarrow> Inr (acc @ xs))"
  using assms
proof (induction items arbitrary: acc)
  case Nil
  then show ?case by (simp add: restrict_inputs_def)
next
  case (Cons item items)
  obtain k v where item: "item = (k, v)" by (cases item)
  from Cons.prems(1) have dist: "distinct (map fst items)" by simp
  show ?case
  proof (cases "k \<in> set ins")
    case False
    from Cons.prems(2) have "fst ` set acc \<inter> fst ` set items = {}" by auto
    from Cons.IH [OF dist this] False item show ?thesis
      by (simp add: restrict_inputs_def)
  next
    case True
    show ?thesis
    proof (cases "to v dev")
      case (Inl e)
      with True item show ?thesis by (simp add: restrict_inputs_def)
    next
      case (Inr v')
      from Cons.prems(2) item have "k \<notin> fst ` set acc" by auto
      then have upd: "setitem acc k v' = acc @ [(k, v')]" by (rule setitem_new)
      from Cons.prems item have "fst ` set (acc @ [(k, v')]) \<inter> fst ` set items = {}"
        by auto
      from Cons.IH [OF dist this] True item Inr upd show ?thesis
        by (simp add: restrict_inputs_def split: sum.splits)
    qed
  qed
qed

text \<open>What \<open>predict\<close> returns, read off its definition.\<close>

lemma predict_result:
  "fst (predict fw self w batch) =
     (case inputs_comp (Tensor_to fw) (device self) (inputs self) (objects w batch) [] of
        Inl e \<Rightarrow> Inl e
      | Inr x \<Rightarrow>
          (case fst (forward self (Module_eval fw (module self)) False x) of
             Inl e \<Rightarrow> Inl e
           | Inr y_hat \<Rightarrow> sigmoid fw y_hat))"
  by (simp add: predict_def predict_body_def Let_def split: sum.splits prod.splits)

text \<open>
  C3. For every batch (a dict: its keys differ), \<open>predict\<close> returns what the four steps
  of the specification return: the entries of the batch whose key is in
  \<^verbatim>\<open>self.inputs\<close>, each value moved to the device of the task, given to the model, and
  the sigmoid of the model's output. A failure of one of the steps is the failure of
  \<open>predict\<close>.
\<close>

theorem predict_refines_inference_spec:
  assumes "distinct (map fst (objects w batch))"
  shows "fst (predict fw self w batch) = inference_spec fw self (objects w batch)"
proof -
  have "inputs_comp (Tensor_to fw) (device self) (inputs self) (objects w batch) [] =
          move_all (Tensor_to fw) (device self) (restrict_inputs (inputs self) (objects w batch))"
    by (simp add: inputs_comp_move_all assms split: sum.splits)
  then show ?thesis
    by (simp add: predict_result inference_spec_def)
qed

theorem predict_refines_inference_spec_witness:
  "distinct (map fst (objects example_world 0))
   \<and> fst (predict example_torch example_task example_world 0)
       = inference_spec example_torch example_task (objects example_world 0)
   \<and> inference_spec example_torch example_task (objects example_world 0) = Inr (''cuda'', 4)"
  using predict_refines_inference_spec [of example_world 0 example_torch example_task]
  by (simp add: example_world_def example_torch_def example_task_def example_forward_def
      inference_spec_def restrict_inputs_def)


section \<open>The constructor's defaults\<close>

text \<open>
  C4. The constructor replaces a \<open>loss_fn\<close> that is \<^verbatim>\<open>None\<close> by the binary cross-entropy
  loss, an \<open>hparams\<close> that is \<^verbatim>\<open>None\<close> by \<^verbatim>\<open>{'optimizer': 'Adam'}\<close> and a \<open>metrics\<close> that is
  \<^verbatim>\<open>None\<close> by \<^verbatim>\<open>{'iou': iou}\<close>, passes every other argument through unchanged, and
  hands the six values to the constructor of the base task in the order model, hparams,
  inputs, outputs, loss_fn, metrics. (An omitted \<open>inputs\<close> is \<^verbatim>\<open>['image']\<close>, an omitted
  \<open>outputs\<close> is \<^verbatim>\<open>['mask']\<close>.)
\<close>

theorem init_assembles_defaults:
  "ImageSegmentation_init BaseTask_init BCEWithLogitsLoss iou
     model hparams_arg inputs_arg outputs_arg loss_fn_arg metrics_arg =
   BaseTask_init model
     (or_default hparams_arg [(''optimizer'', HStr ''Adam'')])
     (or_default inputs_arg [''image''])
     (or_default outputs_arg [''mask''])
     (or_default loss_fn_arg BCEWithLogitsLoss)
     (or_default metrics_arg [(''iou'', iou)])"
  by (simp add: ImageSegmentation_init_def or_default_def split: option.splits)

section \<open>When loss and metrics fail\<close>

lemma metrics_comp_fails:
  "isl (metrics_comp items y_hat y acc) \<longleftrightarrow>
     items \<noteq> [] \<and>
     (case map_of y ''mask'' of
        None \<Rightarrow> True
      | Some msk \<Rightarrow> (\<exists>(n, f) \<in> set items. isl (f y_hat msk)))"
proof (induction items arbitrary: acc)
  case Nil
  then show ?case by simp
next
  case (Cons item items)
  obtain n f where item: "item = (n, f)" by (cases item)
  show ?case
  proof (cases "map_of y ''mask''")
    case None
    with item show ?thesis by (simp add: getitem_def)
  next
    case (Some msk)
    show ?thesis
    proof (cases "f y_hat msk")
      case (Inl e)
      with Some item show ?thesis by (simp add: getitem_def)
    next
      case (Inr r)
      with Some item Cons.IH [of "setitem acc n r"] show ?thesis
        by (auto simp: getitem_def)
    qed
  qed
qed

text \<open>
  C5, as the code has it. \<open>compute_loss\<close> fails exactly when \<open>y\<close> has no key \<^verbatim>\<open>'mask'\<close> or
  the loss function fails on the prediction and \<^verbatim>\<open>y['mask']\<close>. \<open>compute_metrics\<close> fails
  exactly when \<^verbatim>\<open>self.metrics\<close> is not empty and either \<open>y\<close> has no key \<^verbatim>\<open>'mask'\<close> or one
  of the metrics fails on the prediction and \<^verbatim>\<open>y['mask']\<close>: the lookup is part of the
  comprehension's body, so over an empty \<^verbatim>\<open>self.metrics\<close> it never runs. So with the
  key present and the loss function and the metrics returning, neither method fails.
\<close>

theorem failure_exactly_delegated:
  "(isl (compute_loss self y_hat y) \<longleftrightarrow>
      (case map_of y ''mask'' of
         None \<Rightarrow> True
       | Some msk \<Rightarrow> isl (loss_fn self y_hat msk)))
   \<and> (isl (compute_metrics self y_hat y) \<longleftrightarrow>
        metrics self \<noteq> [] \<and>
        (case map_of y ''mask'' of
           None \<Rightarrow> True
         | Some msk \<Rightarrow> (\<exists>(n, f) \<in> set (metrics self). isl (f y_hat msk))))"
proof
  show "isl (compute_loss self y_hat y) \<longleftrightarrow>
      (case map_of y ''mask'' of
         None \<Rightarrow> True
       | Some msk \<Rightarrow> isl (loss_fn self y_hat msk))"
    by (simp add: compute_loss_def getitem_def split: option.splits)
  show "isl (compute_metrics self y_hat y) \<longleftrightarrow>
        metrics self \<noteq> [] \<and>
        (case map_of y ''mask'' of
           None \<Rightarrow> True
         | Some msk \<Rightarrow> (\<exists>(n, f) \<in> set (metrics self). isl (f y_hat msk)))"
    unfolding compute_metrics_def by (rule metrics_comp_fails)
qed

text \<open>
  The claim as the specification states it fails on a task without metrics: the target
  mapping below has no key \<^verbatim>\<open>'mask'\<close>, and \<open>compute_metrics\<close> returns the empty dict.
\<close>

theorem compute_metrics_without_mask_counterexample:
  "map_of ([] :: tensor dict) ''mask'' = None
   \<and> compute_metrics (example_task\<lparr>metrics := []\<rparr>) (''cuda'', 6) [] = Inr []"
  by (simp add: compute_metrics_def)

section \<open>What loss and metrics depend on\<close>

text \<open>
  C6. The \<open>outputs\<close> of a task have no effect on \<open>compute_loss\<close> and \<open>compute_metrics\<close>:
  a task with any other \<open>outputs\<close> returns the same results and fails the same way, and
  the key looked up in the target mapping stays \<^verbatim>\<open>'mask'\<close>.
\<close>

theorem outputs_have_no_effect:
  "compute_loss (self\<lparr>outputs := outs\<rparr>) y_hat y = compute_loss self y_hat y
   \<and> compute_metrics (self\<lparr>outputs := outs\<rparr>) y_hat y = compute_metrics self y_hat y
   \<and> compute_loss (self\<lparr>outputs := outs\<rparr>) y_hat y =
       (case map_of y ''mask'' of
          None \<Rightarrow> Inl (KeyError ''mask'')
        | Some msk \<Rightarrow> loss_fn self y_hat msk)"
  by (simp add: compute_loss_def compute_metrics_def getitem_def split: option.splits)

lemma metrics_comp_mask_only:
  assumes "map_of y1 ''mask'' = map_of y2 ''mask''"
  shows "metrics_comp items y_hat y1 acc = metrics_comp items y_hat y2 acc"
proof (induction items arbitrary: acc)
  case Nil
  then show ?case by simp
next
  case (Cons item items)
  obtain n f where "item = (n, f)" by (cases item)
  with Cons.IH assms show ?case
    by (simp add: getitem_def split: option.splits sum.splits)
qed

text \<open>
  C7. Two target mappings that hold the same value under \<^verbatim>\<open>'mask'\<close> (or both none) give
  the same loss and the same metrics: no other entry of the target mapping is read.
\<close>

theorem only_mask_is_read:
  assumes "map_of y1 ''mask'' = map_of y2 ''mask''"
  shows "compute_loss self y_hat y1 = compute_loss self y_hat y2
       \<and> compute_metrics self y_hat y1 = compute_metrics self y_hat y2"
  using assms metrics_comp_mask_only [OF assms]
  by (simp add: compute_loss_def compute_metrics_def getitem_def)

theorem only_mask_is_read_witness:
  "map_of [(''mask'', (''cuda'', 3::int)), (''date'', (''cpu'', 2021))] ''mask''
     = map_of [(''image'', (''cuda'', 9)), (''mask'', (''cuda'', 3))] ''mask''
   \<and> compute_loss example_task (''cuda'', 5) [(''mask'', (''cuda'', 3)), (''date'', (''cpu'', 2021))]
     = compute_loss example_task (''cuda'', 5) [(''image'', (''cuda'', 9)), (''mask'', (''cuda'', 3))]
   \<and> compute_metrics example_task (''cuda'', 5) [(''mask'', (''cuda'', 3)), (''date'', (''cpu'', 2021))]
     = compute_metrics example_task (''cuda'', 5) [(''image'', (''cuda'', 9)), (''mask'', (''cuda'', 3))]"
  using only_mask_is_read [of "[(''mask'', (''cuda'', 3)), (''date'', (''cpu'', 2021))]"
      "[(''image'', (''cuda'', 9)), (''mask'', (''cuda'', 3))]" example_task "(''cuda'', 5)"]
  by simp

section \<open>What inference depends on and what it changes\<close>

text \<open>An entry whose key is not an input is skipped by the comprehension of \<open>predict\<close>.\<close>

lemma inputs_comp_restrict:
  "inputs_comp to dev ins items acc = inputs_comp to dev ins (restrict_inputs ins items) acc"
proof (induction items arbitrary: acc)
  case Nil
  then show ?case by (simp add: restrict_inputs_def)
next
  case (Cons item items)
  obtain k v where "item = (k, v)" by (cases item)
  with Cons.IH show ?case
    by (simp add: restrict_inputs_def split: sum.splits)
qed

text \<open>The keys of the dict it builds are the keys it started with and the input keys it visited.\<close>

lemma inputs_comp_keys:
  assumes "inputs_comp to dev ins items acc = Inr x"
  shows "fst ` set x = fst ` set acc \<union> (fst ` set items \<inter> set ins)"
  using assms
proof (induction items arbitrary: acc)
  case Nil
  then show ?case by simp
next
  case (Cons item items)
  obtain k v where item: "item = (k, v)" by (cases item)
  show ?case
  proof (cases "k \<in> set ins")
    case False
    with Cons.prems item have "inputs_comp to dev ins items acc = Inr x" by simp
    from Cons.IH [OF this] False item show ?thesis by auto
  next
    case True
    with Cons.prems item obtain v' where "to v dev = Inr v'"
      and "inputs_comp to dev ins items (setitem acc k v') = Inr x"
      by (auto split: sum.splits)
    from Cons.IH [OF this(2)] True item show ?thesis
      by (auto simp: setitem_keys)
  qed
qed

text \<open>\<open>predict\<close> reads the batch in the comprehension and nowhere else.\<close>

lemma predict_reads_batch_once:
  assumes "inputs_comp (Tensor_to fw) (device self) (inputs self) (objects w b1) [] =
           inputs_comp (Tensor_to fw) (device self) (inputs self) (objects w b2) []"
  shows "predict fw self w b1 = predict fw self w b2"
  using assms by (simp add: predict_def predict_body_def)

text \<open>
  C9, as the code has it. \<open>predict\<close> ignores the entries of the batch whose key is not in
  \<^verbatim>\<open>self.inputs\<close>: two batches whose entries with a key in \<^verbatim>\<open>self.inputs\<close> are the same, in
  the same order, give the same result (and leave the same task and the same world). The
  dict handed to the model is the value of the comprehension, and its keys are the keys
  of the batch that are in \<^verbatim>\<open>self.inputs\<close>: no other entry reaches the model.
\<close>

theorem predict_ignores_other_entries:
  assumes "restrict_inputs (inputs self) (objects w b1) = restrict_inputs (inputs self) (objects w b2)"
  shows "predict fw self w b1 = predict fw self w b2
       \<and> (\<forall>x. inputs_comp (Tensor_to fw) (device self) (inputs self) (objects w b1) [] = Inr x \<longrightarrow>
                fst ` set x = fst ` set (objects w b1) \<inter> set (inputs self))"
proof
  have "inputs_comp (Tensor_to fw) (device self) (inputs self) (objects w b1) [] =
        inputs_comp (Tensor_to fw) (device self) (inputs self) (objects w b2) []"
    using assms
      inputs_comp_restrict [of "Tensor_to fw" "device self" "inputs self" "objects w b1" "[]"]
      inputs_comp_restrict [of "Tensor_to fw" "device self" "inputs self" "objects w b2" "[]"]
    by simp
  then show "predict fw self w b1 = predict fw self w b2"
    by (rule predict_reads_batch_once)
  show "\<forall>x. inputs_comp (Tensor_to fw) (device self) (inputs self) (objects w b1) [] = Inr x \<longrightarrow>
                fst ` set x = fst ` set (objects w b1) \<inter> set (inputs self)"
    using inputs_comp_keys [of "Tensor_to fw" "device self" "inputs self" "objects w b1" "[]"]
    by simp
qed

theorem predict_ignores_other_entries_witness:
  "restrict_inputs (inputs example_task) (objects example_world 0)
     = restrict_inputs (inputs example_task) (objects example_world 2)
   \<and> objects example_world 0 \<noteq> objects example_world 2
   \<and> predict example_torch example_task example_world 0
     = predict example_torch example_task example_world 2
   \<and> fst (predict example_torch example_task example_world 0) = Inr (''cuda'', 4)"
  using predict_ignores_other_entries [of example_task example_world 0 2 example_torch]
  by (simp add: example_world_def example_task_def example_torch_def example_forward_def
      restrict_inputs_def predict_result)

text \<open>
  The claim as the specification states it, for any two batches that agree on the keys
  in \<^verbatim>\<open>self.inputs\<close>, fails when they hold these entries in a different order: the two
  batches of the example hold the same value under each input, and the model, which
  returns the first entry of its dict, gives two results.
\<close>

theorem predict_entry_order_counterexample:
  "inputs example_task = [''image'', ''dem'']
   \<and> map_of (objects example_world 0) ''image'' = map_of (objects example_world 1) ''image''
   \<and> map_of (objects example_world 0) ''dem'' = map_of (objects example_world 1) ''dem''
   \<and> fst (predict example_torch example_task example_world 0) = Inr (''cuda'', 4)
   \<and> fst (predict example_torch example_task example_world 1) = Inr (''cuda'', 10)"
  by (simp add: example_world_def example_task_def example_torch_def example_forward_def
      predict_result)

text \<open>
  C10. \<open>predict\<close> does not change its input: the batch dict, a dict that exists when
  \<open>predict\<close> is called, holds the same entries after the call. The dict that \<open>predict\<close>
  builds and the model may store into is a new object, under a new reference.
\<close>

theorem predict_keeps_batch:
  assumes "batch < next_ref w"
  shows "objects (snd (snd (predict fw self w batch))) batch = objects w batch"
  using assms
  by (simp add: predict_def predict_body_def Let_def split: sum.splits prod.splits)

theorem predict_keeps_batch_witness:
  "(0::nat) < next_ref example_world
   \<and> objects (snd (snd (predict example_torch example_task example_world 0))) 0
     = objects example_world 0
   \<and> next_ref (snd (snd (predict example_torch example_task example_world 0))) = 4"
  using predict_keeps_batch [of 0 example_world example_torch example_task]
  by (simp add: example_world_def example_task_def example_torch_def example_forward_def
      predict_def predict_body_def)

section \<open>Delegation\<close>

text \<open>
  C8, as the code has it. Each of the three operations forwards to what the task
  stores. \<open>compute_loss\<close> is the task's loss function on the prediction and \<^verbatim>\<open>y['mask']\<close>, and
  a task with the same loss function computes the same; \<open>compute_metrics\<close> likewise
  depends on the task through its metrics alone. Neither changes the task: they are
  functions of the task, the prediction and the target mapping. \<open>predict\<close> returns the
  sigmoid of what the model returns. It changes no attribute of the task but its module
  state: \<^verbatim>\<open>self.eval()\<close> switches it to evaluation mode, and the model is then called in
  that state and may change it. The gradient mode is after the call what it was before.
\<close>

theorem operations_delegate:
  "compute_loss self y_hat y =
     (case map_of y ''mask'' of
        None \<Rightarrow> Inl (KeyError ''mask'')
      | Some msk \<Rightarrow> loss_fn self y_hat msk)
   \<and> compute_loss self y_hat y = compute_loss (other\<lparr>loss_fn := loss_fn self\<rparr>) y_hat y
   \<and> compute_metrics self y_hat y = compute_metrics (other\<lparr>metrics := metrics self\<rparr>) y_hat y
   \<and> fst (predict fw self w batch) =
       (case inputs_comp (Tensor_to fw) (device self) (inputs self) (objects w batch) [] of
          Inl e \<Rightarrow> Inl e
        | Inr x \<Rightarrow>
            (case fst (forward self (Module_eval fw (module self)) False x) of
               Inl e \<Rightarrow> Inl e
             | Inr y_hat \<Rightarrow> sigmoid fw y_hat))
   \<and> fst (snd (predict fw self w batch)) =
       self\<lparr>module :=
         (case inputs_comp (Tensor_to fw) (device self) (inputs self) (objects w batch) [] of
            Inl e \<Rightarrow> Module_eval fw (module self)
          | Inr x \<Rightarrow> snd (snd (forward self (Module_eval fw (module self)) False x)))\<rparr>
   \<and> grad_enabled (snd (snd (predict fw self w batch))) = grad_enabled w"
proof (intro conjI)
  show "compute_loss self y_hat y =
     (case map_of y ''mask'' of
        None \<Rightarrow> Inl (KeyError ''mask'')
      | Some msk \<Rightarrow> loss_fn self y_hat msk)"
    by (simp add: compute_loss_def getitem_def split: option.splits)
  show "compute_loss self y_hat y = compute_loss (other\<lparr>loss_fn := loss_fn self\<rparr>) y_hat y"
    by (simp add: compute_loss_def split: sum.splits)
  show "compute_metrics self y_hat y = compute_metrics (other\<lparr>metrics := metrics self\<rparr>) y_hat y"
    by (simp add: compute_metrics_def)
  show "fst (predict fw self w batch) =
       (case inputs_comp (Tensor_to fw) (device self) (inputs self) (objects w batch) [] of
          Inl e \<Rightarrow> Inl e
        | Inr x \<Rightarrow>
            (case fst (forward self (Module_eval fw (module self)) False x) of
               Inl e \<Rightarrow> Inl e
             | Inr y_hat \<Rightarrow> sigmoid fw y_hat))"
    by (rule predict_result)
  show "fst (snd (predict fw self w batch)) =
       self\<lparr>module :=
         (case inputs_comp (Tensor_to fw) (device self) (inputs self) (objects w batch) [] of
            Inl e \<Rightarrow> Module_eval fw (module self)
          | Inr x \<Rightarrow> snd (snd (forward self (Module_eval fw (module self)) False x)))\<rparr>"
    by (simp add: predict_def predict_body_def Let_def split: sum.splits prod.splits)
  show "grad_enabled (snd (snd (predict fw self w batch))) = grad_enabled w"
    by (simp add: predict_def predict_body_def Let_def split: sum.splits prod.splits)
qed

text \<open>
  The claim as the specification states it, that no operation updates a field of the
  task, fails for \<open>predict\<close> on a task in training mode: after the call the task is in
  evaluation mode.
\<close>

theorem predict_switches_mode_counterexample:
  "module example_task = True
   \<and> module (fst (snd (predict example_torch example_task example_world 0))) = False
   \<and> fst (snd (predict example_torch example_task example_world 0)) \<noteq> example_task"
proof -
  have m: "module (fst (snd (predict example_torch example_task example_world 0))) = False"
    by (simp add: example_world_def example_task_def example_torch_def example_forward_def
        predict_def predict_body_def)
  have t: "module example_task = True"
    by (simp add: example_task_def)
  from m t have "fst (snd (predict example_torch example_task example_world 0)) \<noteq> example_task"
    by auto
  with m t show ?thesis by simp
qed

end
